theory Spec2Isabelle
  imports Complex_Main
begin

section \<open>Data model (src/types/pokemon.ts)\<close>

text \<open>
  Only the fields the fetcher reads or writes are kept. \<open>PokemonWithImage\<close> repeats the two
  fields of \<open>PokemonListItem\<close> in the source; TypeScript types are structural, so it is modelled
  as an extension of that record. A \<open>null\<close> is \<open>None\<close>; the optional \<open>isLoading?\<close> is an
  option as well.
\<close>

record PokemonListItem =
  name :: string
  url :: string

record PokemonWithImage = PokemonListItem +
  image :: "string option"
  isLoading :: "bool option"

record PokemonSprites =
  front_default :: "string option"

record Pokemon =
  sprites :: PokemonSprites

record PokemonListResponse =
  results :: "PokemonListItem list"

text \<open>\<open>FetchPokemonOptions\<close> of src/utils/pokemonFetcher.ts: both fields may be left out.\<close>

record FetchPokemonOptions =
  requestTimeout :: "nat option"
  count :: "int option"


section \<open>The JavaScript runtime, in logical time\<close>

text \<open>
  Time is counted in milliseconds from the moment a promise is created; computation itself
  takes no time. A promise resolves with a value after some delay, rejects with an error
  after some delay, or stays pending for ever.
\<close>

datatype jsError = NetworkError | AbortError | SyntaxError | TypeError

datatype 'a promise = Resolves nat 'a | Rejects nat jsError | Pending

text \<open>
  What \<open>response.json()\<close> delivers: a value of the TypeScript type the code declares for
  it, or some other JSON value on which the property path the code reads is missing, so that
  reading it throws a \<open>TypeError\<close>.
\<close>

datatype 'a json = Typed 'a | Malformed

text \<open>A \<open>Response\<close>. The fetcher never reads \<open>ok\<close>; it only calls \<open>json()\<close>.\<close>

record 'a Response =
  ok :: bool
  json :: "'a json promise"

text \<open>One entry of the array \<open>Promise.allSettled\<close> resolves with.\<close>

datatype 'a PromiseSettledResult = Fulfilled 'a | Rejected jsError

text \<open>\<open>later t p\<close>: the promise \<open>p\<close>, created \<open>t\<close> milliseconds from now.\<close>

fun later :: "nat \<Rightarrow> 'a promise \<Rightarrow> 'a promise" where
  "later t (Resolves d v) = Resolves (t + d) v"
| "later t (Rejects d e) = Rejects (t + d) e"
| "later t Pending = Pending"

text \<open>\<open>const v = await p; k v\<close> inside an async function.\<close>

fun await :: "'a promise \<Rightarrow> ('a \<Rightarrow> 'b promise) \<Rightarrow> 'b promise" where
  "await (Resolves d v) k = later d (k v)"
| "await (Rejects d e) k = Rejects d e"
| "await Pending k = Pending"

text \<open>\<open>try { ... } catch (err) { h err }\<close> around an awaited body.\<close>

fun tryCatch :: "'a promise \<Rightarrow> (jsError \<Rightarrow> 'a promise) \<Rightarrow> 'a promise" where
  "tryCatch (Resolves d v) h = Resolves d v"
| "tryCatch (Rejects d e) h = later d (h e)"
| "tryCatch Pending h = Pending"

text \<open>
  The delay \<open>setTimeout\<close> really waits, in Node.js, the runtime of the repository's test
  suite: a delay below 1 or above 2147483647 (it is kept as a signed 32-bit number) is set
  to 1.
\<close>

definition setTimeoutDelay :: "nat \<Rightarrow> nat" where
  "setTimeoutDelay ms = (if ms < 1 \<or> 2147483647 < ms then 1 else ms)"

text \<open>
  \<open>fetch(url, { signal })\<close> with a timer armed just before it that calls
  \<open>controller.abort()\<close> after \<open>delay\<close> milliseconds: a request that has not settled when
  the timer fires is aborted and rejects with an \<open>AbortError\<close> at that moment, as the Fetch
  standard prescribes. The timer is armed first, so it also wins against a request that
  would settle in the very millisecond it fires: the request settles on its own only
  strictly before.
\<close>

fun abortable :: "nat \<Rightarrow> 'a promise \<Rightarrow> 'a promise" where
  "abortable delay (Resolves d v) =
     (if d < delay then Resolves d v else Rejects delay AbortError)"
| "abortable delay (Rejects d e) =
     (if d < delay then Rejects d e else Rejects delay AbortError)"
| "abortable delay Pending = Rejects delay AbortError"

text \<open>
  \<open>Promise.allSettled\<close>: resolves once every promise has settled, at the moment the last
  one settles, with one entry per promise in the order of the array it was given; it never
  rejects, and stays pending when one of the promises does.
\<close>

fun allSettled :: "'a promise list \<Rightarrow> 'a PromiseSettledResult list promise" where
  "allSettled [] = Resolves 0 []"
| "allSettled (p # ps) =
     (case p of
        Pending \<Rightarrow> Pending
      | Resolves d v \<Rightarrow>
          (case allSettled ps of
             Resolves t rs \<Rightarrow> Resolves (max d t) (Fulfilled v # rs)
           | Rejects t e \<Rightarrow> Rejects t e
           | Pending \<Rightarrow> Pending)
      | Rejects d e \<Rightarrow>
          (case allSettled ps of
             Resolves t rs \<Rightarrow> Resolves (max d t) (Rejected e # rs)
           | Rejects t e' \<Rightarrow> Rejects t e'
           | Pending \<Rightarrow> Pending))"

text \<open>
  \<open>results.filter((result) => result.status === "fulfilled").map((result) => result.value)\<close>
\<close>

fun fulfilledValues :: "'a PromiseSettledResult list \<Rightarrow> 'a list" where
  "fulfilledValues [] = []"
| "fulfilledValues (Fulfilled v # rs) = v # fulfilledValues rs"
| "fulfilledValues (Rejected e # rs) = fulfilledValues rs"


section \<open>The environment of one call\<close>

text \<open>
  \<open>listFetch\<close> is what \<open>fetch\<close> of the list endpoint does, \<open>detailFetch k u\<close> what the
  \<open>k\<close>-th detail request does when issued for the address \<open>u\<close>. \<open>floorRandom i len\<close> is
  the value of the expression \<open>Math.floor(Math.random() * len)\<close> at the \<open>i\<close>-th call of
  \<open>Math.random()\<close>. The product is a rounded IEEE-754 multiplication of doubles, which
  this model does not compute: the environment supplies the value of the whole expression.
\<close>

record environment =
  listFetch :: "PokemonListResponse Response promise"
  detailFetch :: "nat \<Rightarrow> string \<Rightarrow> Pokemon Response promise"
  floorRandom :: "nat \<Rightarrow> nat \<Rightarrow> nat"

definition listUrl :: string where
  "listUrl = ''https://pokeapi.co/api/v2/pokemon?limit=1000''"


section \<open>fetchPokemonListWithDetails (src/utils/pokemonFetcher.ts)\<close>

text \<open>Line 22: the defaults of the two options.\<close>

definition requestTimeoutOf :: "FetchPokemonOptions \<Rightarrow> nat" where
  "requestTimeoutOf options = (case requestTimeout options of None \<Rightarrow> 10000 | Some t \<Rightarrow> t)"

definition countOf :: "FetchPokemonOptions \<Rightarrow> int" where
  "countOf options = (case count options of None \<Rightarrow> 10 | Some c \<Rightarrow> c)"

text \<open>Lines 37-42: the object pushed for a selected entry.\<close>

definition placeholder :: "PokemonListItem \<Rightarrow> PokemonWithImage" where
  "placeholder pokemon =
     \<lparr>name = name pokemon, url = url pokemon, image = None, isLoading = Some True\<rparr>"

text \<open>
  Lines 32-44: the selection loop, entered with \<open>i\<close> calls of \<open>Math.random()\<close> made so
  far; \<open>random i len\<close> is the value of \<open>Math.floor(Math.random() * len)\<close> at the next
  call (line 33), and \<open>cnt\<close> is the option \<open>count\<close>. The loop has no bound, so it is a
  partial function: \<open>None\<close> is a loop that never ends. \<open>Some (Inl e)\<close> is a thrown error: reading \<open>data.results.length\<close> on a value
  without \<open>results\<close>, or \<open>pokemon.name\<close> when \<open>data.results[randomIndex]\<close> is
  \<open>undefined\<close>.
\<close>

partial_function (option) selectLoop ::
  "PokemonListResponse json \<Rightarrow> int \<Rightarrow> (nat \<Rightarrow> nat \<Rightarrow> nat) \<Rightarrow> nat \<Rightarrow> nat set \<Rightarrow>
     PokemonWithImage list \<Rightarrow> (jsError + PokemonWithImage list) option" where
  "selectLoop data cnt random i usedIndices randomPokemon =
     (if int (length randomPokemon) < cnt then
        (case data of
           Malformed \<Rightarrow> Some (Inl TypeError)
         | Typed d \<Rightarrow>
             (let randomIndex = random i (length (results d)) in
              if randomIndex \<notin> usedIndices then
                (if randomIndex < length (results d) then
                   selectLoop data cnt random (Suc i) (insert randomIndex usedIndices)
                     (randomPokemon @ [placeholder (results d ! randomIndex)])
                 else Some (Inl TypeError))
              else selectLoop data cnt random (Suc i) usedIndices randomPokemon))
      else Some (Inr randomPokemon))"

text \<open>
  Lines 47-72: the async callback run for one selected entry. The timer is armed with
  \<open>requestTimeout\<close> (line 50) and cleared as soon as \<open>fetch\<close> has resolved (line 53),
  before the body is read (line 55).
\<close>

definition detailTask ::
  "nat \<Rightarrow> (string \<Rightarrow> Pokemon Response promise) \<Rightarrow> PokemonWithImage \<Rightarrow> PokemonWithImage promise"
  where
  "detailTask timeoutMs fetch pokemon =
     tryCatch
       (await (abortable (setTimeoutDelay timeoutMs) (fetch (url pokemon))) (\<lambda>detailResponse.
        await (json detailResponse) (\<lambda>details.
          case details of
            Malformed \<Rightarrow> Rejects 0 TypeError
          | Typed d \<Rightarrow>
              Resolves 0 \<lparr>name = name pokemon, url = url pokemon,
                          image = front_default (sprites d), isLoading = Some False\<rparr>)))
       (\<lambda>err. Resolves 0 \<lparr>name = name pokemon, url = url pokemon,
                           image = None, isLoading = Some False\<rparr>)"

text \<open>
  Lines 47-72: the array \<open>detailPromises\<close>. \<open>map\<close> starts every callback before anything
  is awaited; the first callback issues detail request number \<open>n\<close>, the next one number
  \<open>n + 1\<close>, and so on.
\<close>

definition detailPromises ::
  "nat \<Rightarrow> (nat \<Rightarrow> string \<Rightarrow> Pokemon Response promise) \<Rightarrow> nat \<Rightarrow> PokemonWithImage list \<Rightarrow>
     PokemonWithImage promise list" where
  "detailPromises timeoutMs fetch n randomPokemon =
     map (\<lambda>(k, pokemon). detailTask timeoutMs (fetch k) pokemon) (enumerate n randomPokemon)"

text \<open>Lines 46-80: the detail phase, from the dispatch of the requests to the return.\<close>

definition loadDetails ::
  "nat \<Rightarrow> (nat \<Rightarrow> string \<Rightarrow> Pokemon Response promise) \<Rightarrow> PokemonWithImage list \<Rightarrow>
     PokemonWithImage list promise" where
  "loadDetails timeoutMs fetch randomPokemon =
     await (allSettled (detailPromises timeoutMs fetch 0 randomPokemon)) (\<lambda>results.
       Resolves 0 (fulfilledValues results))"

text \<open>
  The result of one call: what the returned promise does, and the addresses \<open>fetch\<close> was
  called with, in order.
\<close>

record run =
  outcome :: "PokemonWithImage list promise"
  calls :: "string list"

text \<open>
  Lines 21-81. The list request and the parsing of its body are awaited first (lines 25-26);
  an error thrown there or in the selection loop rejects the returned promise.
\<close>

definition fetchPokemonListWithDetails :: "FetchPokemonOptions \<Rightarrow> environment \<Rightarrow> run" where
  "fetchPokemonListWithDetails options env =
     (case await (listFetch env) json of
        Pending \<Rightarrow> \<lparr>outcome = Pending, calls = [listUrl]\<rparr>
      | Rejects t e \<Rightarrow> \<lparr>outcome = Rejects t e, calls = [listUrl]\<rparr>
      | Resolves t data \<Rightarrow>
          (case selectLoop data (countOf options) (floorRandom env) 0 {} [] of
             None \<Rightarrow> \<lparr>outcome = Pending, calls = [listUrl]\<rparr>
           | Some (Inl e) \<Rightarrow> \<lparr>outcome = Rejects t e, calls = [listUrl]\<rparr>
           | Some (Inr randomPokemon) \<Rightarrow>
               \<lparr>outcome = later t (loadDetails (requestTimeoutOf options) (detailFetch env)
                                     randomPokemon),
                calls = listUrl # map url randomPokemon\<rparr>))"


section \<open>Vocabulary of the specification\<close>

text \<open>
  The outcome of one retrieval under the timeout \<open>timeoutMs\<close>, in the specification's
  words (sections 4.1, 7 and 8). A retrieval succeeds when it completes before the timeout
  elapses: the response arrives, it has a success status, and its body is parsed to a record,
  all before \<open>timeoutMs\<close>. It fails on a network error, a non-success response or a parse
  error before the timeout elapses. It times out when it does not complete within
  \<open>timeoutMs\<close>. This definition follows the specification, not the code.
\<close>

datatype retrieval = Success | Failure | Timeout

definition specOutcome :: "nat \<Rightarrow> Pokemon Response promise \<Rightarrow> retrieval" where
  "specOutcome timeoutMs p =
     (case p of
        Pending \<Rightarrow> Timeout
      | Rejects d e \<Rightarrow> if d < timeoutMs then Failure else Timeout
      | Resolves d r \<Rightarrow>
          if \<not> d < timeoutMs then Timeout
          else if \<not> ok r then Failure
          else (case json r of
                  Pending \<Rightarrow> Timeout
                | Rejects d' e \<Rightarrow> if d + d' < timeoutMs then Failure else Timeout
                | Resolves d' Malformed \<Rightarrow> if d + d' < timeoutMs then Failure else Timeout
                | Resolves d' (Typed x) \<Rightarrow> if d + d' < timeoutMs then Success else Timeout))"


section \<open>What the code does with one retrieval\<close>

text \<open>
  The three courses one task can take, read off lines 48-71, for a timer that fires after
  \<open>delay\<close> milliseconds. The task delivers a record when the response arrives before the
  timer fires and its body is parsed to a record, however late and whatever the status. It
  raises an error, which line 62 catches, when the request rejects, when the timer fires
  before a response has arrived, when the body is not parsed, or when the parsed value has no
  sprites. It stalls when the response arrives before the timer fires and its body never
  finishes.
\<close>

datatype course = Delivers Pokemon | Raises | Stalls

definition courseOf :: "nat \<Rightarrow> Pokemon Response promise \<Rightarrow> course" where
  "courseOf delay p =
     (case p of
        Pending \<Rightarrow> Raises
      | Rejects d e \<Rightarrow> Raises
      | Resolves d r \<Rightarrow>
          if d < delay then
            (case json r of
               Pending \<Rightarrow> Stalls
             | Rejects d' e \<Rightarrow> Raises
             | Resolves d' Malformed \<Rightarrow> Raises
             | Resolves d' (Typed x) \<Rightarrow> Delivers x)
          else Raises)"

text \<open>
  The contract of \<open>Math.floor(Math.random() * len)\<close>: \<open>Math.random()\<close> is at least 0 and
  below 1, so the value is an index below \<open>len\<close>, and 0 when \<open>len\<close> is 0.
\<close>

definition validRandom :: "(nat \<Rightarrow> nat \<Rightarrow> nat) \<Rightarrow> bool" where
  "validRandom random = (\<forall>i len. random i len < max 1 len)"

text \<open>
  A random source is fair for a list of \<open>len\<close> entries when every index keeps coming up:
  after any number of draws, each index below \<open>len\<close> is drawn again. A uniform source is
  fair with probability 1.
\<close>

definition fairRandom :: "(nat \<Rightarrow> nat \<Rightarrow> nat) \<Rightarrow> nat \<Rightarrow> bool" where
  "fairRandom random len = (\<forall>i. \<forall>k<len. \<exists>j\<ge>i. random j len = k)"

text \<open>The placeholders of the entries at the indices \<open>js\<close> of a list response, in that order.\<close>

definition selected :: "PokemonListResponse \<Rightarrow> nat list \<Rightarrow> PokemonWithImage list" where
  "selected d js = map (\<lambda>j. placeholder (results d ! j)) js"


section \<open>Example data\<close>

text \<open>
  The scenario of the specification: three entries; the first detail request is answered
  after 10 ms with a record, the second rejects at once with a network error, the third is
  never answered; the timeout is 50 ms. The random source draws the indices 0, 1, 2 in turn.
\<close>

definition pikachu :: PokemonListItem where
  "pikachu = \<lparr>name = ''pikachu'', url = ''/pokemon/25/''\<rparr>"

definition charizard :: PokemonListItem where
  "charizard = \<lparr>name = ''charizard'', url = ''/pokemon/6/''\<rparr>"

definition bulbasaur :: PokemonListItem where
  "bulbasaur = \<lparr>name = ''bulbasaur'', url = ''/pokemon/1/''\<rparr>"

definition scenarioList :: PokemonListResponse where
  "scenarioList = \<lparr>results = [pikachu, charizard, bulbasaur]\<rparr>"

definition jsonBody :: "'a \<Rightarrow> 'a Response" where
  "jsonBody v = \<lparr>ok = True, json = Resolves 0 (Typed v)\<rparr>"

definition spriteRecord :: "string option \<Rightarrow> Pokemon" where
  "spriteRecord img = \<lparr>sprites = \<lparr>front_default = img\<rparr>\<rparr>"

definition cyclicRandom :: "nat \<Rightarrow> nat \<Rightarrow> nat" where
  "cyclicRandom i len = i mod max 1 len"

definition scenarioFetch :: "nat \<Rightarrow> string \<Rightarrow> Pokemon Response promise" where
  "scenarioFetch k u =
     (if k = 0 then Resolves 10 (jsonBody (spriteRecord (Some ''pikachu.png'')))
      else if k = 1 then Rejects 0 NetworkError
      else Pending)"

definition scenarioEnv :: environment where
  "scenarioEnv =
     \<lparr>listFetch = Resolves 0 (jsonBody scenarioList),
      detailFetch = scenarioFetch,
      floorRandom = cyclicRandom\<rparr>"

definition scenarioOptions :: FetchPokemonOptions where
  "scenarioOptions = \<lparr>requestTimeout = Some 50, count = Some 3\<rparr>"

definition resolved :: "PokemonListItem \<Rightarrow> string option \<Rightarrow> PokemonWithImage" where
  "resolved p img = \<lparr>name = name p, url = url p, image = img, isLoading = Some False\<rparr>"

text \<open>Every record is delivered, but it has no default sprite.\<close>

definition nullSpriteFetch :: "nat \<Rightarrow> string \<Rightarrow> Pokemon Response promise" where
  "nullSpriteFetch k u = Resolves 10 (jsonBody (spriteRecord None))"


text \<open>The first request is answered after 30 ms, every later one after 10 ms.\<close>

definition reversedFetch :: "nat \<Rightarrow> string \<Rightarrow> Pokemon Response promise" where
  "reversedFetch k u =
     (if k = 0 then Resolves 30 (jsonBody (spriteRecord (Some ''pikachu.png'')))
      else Resolves 10 (jsonBody (spriteRecord (Some ''charizard.png''))))"

text \<open>
  Every response arrives after 30 ms and its body after 10 ms more; the sprite is named after
  the address.
\<close>

definition uniformFetch :: "nat \<Rightarrow> string \<Rightarrow> Pokemon Response promise" where
  "uniformFetch k u = Resolves 30 \<lparr>ok = True, json = Resolves 10 (Typed (spriteRecord (Some u)))\<rparr>"

text \<open>Every response arrives after 5 ms; its body never finishes.\<close>

definition stalledFetch :: "nat \<Rightarrow> string \<Rightarrow> Pokemon Response promise" where
  "stalledFetch k u = Resolves 5 \<lparr>ok = True, json = Pending\<rparr>"

text \<open>
  The first request is answered after 10 ms with a record; the response to every later one
  arrives after 5 ms and its body never finishes.
\<close>

definition stalledSiblingFetch :: "nat \<Rightarrow> string \<Rightarrow> Pokemon Response promise" where
  "stalledSiblingFetch k u =
     (if k = 0 then Resolves 10 (jsonBody (spriteRecord (Some ''pikachu.png'')))
      else Resolves 5 \<lparr>ok = True, json = Pending\<rparr>)"

text \<open>
  A call in which every draw gives the same index \<open>j\<close>: \<open>Math.random()\<close> returning 0 at
  every call gives 0, and returning 0.5 gives 1 for a list of three entries.
\<close>

definition selectEnv :: "nat \<Rightarrow> environment" where
  "selectEnv j =
     \<lparr>listFetch = Resolves 0 (jsonBody scenarioList),
      detailFetch = uniformFetch,
      floorRandom = (\<lambda>i len. j)\<rparr>"

definition oneOptions :: FetchPokemonOptions where
  "oneOptions = \<lparr>requestTimeout = Some 50, count = Some 1\<rparr>"

definition twoOptions :: FetchPokemonOptions where
  "twoOptions = \<lparr>requestTimeout = Some 50, count = Some 2\<rparr>"

definition zeroOptions :: FetchPokemonOptions where
  "zeroOptions = \<lparr>requestTimeout = None, count = Some 0\<rparr>"

text \<open>The list response arrives after 100 ms and its body after 20 ms more.\<close>

definition slowListEnv :: environment where
  "slowListEnv =
     \<lparr>listFetch = Resolves 100 \<lparr>ok = True, json = Resolves 20 (Typed scenarioList)\<rparr>,
      detailFetch = uniformFetch,
      floorRandom = cyclicRandom\<rparr>"


section \<open>The runtime primitives and one detail task\<close>

lemma later_0 [simp]: "later 0 p = p"
  by (cases p) simp_all

lemma detailTask_cases:
  "detailTask T f p =
     (case abortable (setTimeoutDelay T) (f (url p)) of
        Pending \<Rightarrow> Pending
      | Rejects d e \<Rightarrow> Resolves d \<lparr>name = name p, url = url p, image = None, isLoading = Some False\<rparr>
      | Resolves d r \<Rightarrow>
          (case json r of
             Pending \<Rightarrow> Pending
           | Rejects d' e \<Rightarrow> Resolves (d + d') \<lparr>name = name p, url = url p, image = None, isLoading = Some False\<rparr>
           | Resolves d' Malformed \<Rightarrow> Resolves (d + d') \<lparr>name = name p, url = url p, image = None, isLoading = Some False\<rparr>
           | Resolves d' (Typed x) \<Rightarrow> Resolves (d + d') \<lparr>name = name p, url = url p, image = front_default (sprites x), isLoading = Some False\<rparr>))"
  by (simp add: detailTask_def split: promise.splits json.splits)

lemma detailTask_not_Rejects: "detailTask T f p \<noteq> Rejects t e"
  by (simp add: detailTask_cases split: promise.splits json.splits)

lemma detailTask_Resolves:
  "detailTask T f p = Resolves d v \<Longrightarrow> name v = name p \<and> url v = url p \<and> isLoading v = Some False"
  by (auto simp add: detailTask_cases split: promise.splits json.splits)

lemma detailPromises_Nil [simp]: "detailPromises T fetch n [] = []"
  by (simp add: detailPromises_def)

lemma detailPromises_Cons [simp]: "detailPromises T fetch n (h # hs) = detailTask T (fetch n) h # detailPromises T fetch (Suc n) hs"
  by (simp add: detailPromises_def)


lemma allSettled_detailPromises:
  "allSettled (detailPromises T fetch n hs) = Resolves t rs \<Longrightarrow>
     length (fulfilledValues rs) = length hs \<and>
     (\<forall>j<length hs. \<exists>d\<le>t. detailTask T (fetch (n + j)) (hs ! j) = Resolves d (fulfilledValues rs ! j))"
proof (induction hs arbitrary: n t rs)
  case Nil
  then show ?case by simp
next
  case (Cons h hs)
  from Cons.prems obtain d v t' rs' where
    h: "detailTask T (fetch n) h = Resolves d v" and
    r: "allSettled (detailPromises T fetch (Suc n) hs) = Resolves t' rs'" and
    t: "t = max d t'" and rs: "rs = Fulfilled v # rs'"
    by (auto simp: detailTask_not_Rejects split: promise.splits)
  from Cons.IH[OF r] have len: "length (fulfilledValues rs') = length hs"
    and nth: "\<And>j. j < length hs \<Longrightarrow> \<exists>d\<le>t'. detailTask T (fetch (Suc n + j)) (hs ! j) = Resolves d (fulfilledValues rs' ! j)"
    by auto
  show ?case
  proof (intro conjI allI impI)
    show "length (fulfilledValues rs) = length (h # hs)" using len rs by simp
  next
    fix j assume j: "j < length (h # hs)"
    show "\<exists>d\<le>t. detailTask T (fetch (n + j)) ((h # hs) ! j) = Resolves d (fulfilledValues rs ! j)"
    proof (cases j)
      case 0
      then show ?thesis using h t rs by auto
    next
      case (Suc j')
      with j have "j' < length hs" by simp
      from nth[OF this] obtain d' where "d' \<le> t'" "detailTask T (fetch (Suc n + j')) (hs ! j') = Resolves d' (fulfilledValues rs' ! j')" by blast
      then show ?thesis using Suc t rs by (auto intro!: exI[of _ d'])
    qed
  qed
qed

lemma allSettled_detailPromises_settle:
  "(\<And>j. j < length hs \<Longrightarrow> detailTask T (fetch (n + j)) (hs ! j) \<noteq> Pending) \<Longrightarrow>
     \<exists>t rs. allSettled (detailPromises T fetch n hs) = Resolves t rs"
proof (induction hs arbitrary: n)
  case Nil
  then show ?case by simp
next
  case (Cons h hs)
  have "\<And>j. j < length hs \<Longrightarrow> detailTask T (fetch (Suc n + j)) (hs ! j) \<noteq> Pending"
    using Cons.prems[of "Suc j" for j] by auto
  from Cons.IH[OF this] obtain t rs where r: "allSettled (detailPromises T fetch (Suc n) hs) = Resolves t rs" by blast
  from Cons.prems[of 0] have "detailTask T (fetch n) h \<noteq> Pending" by simp
  then obtain d v where "detailTask T (fetch n) h = Resolves d v"
    using detailTask_not_Rejects by (cases "detailTask T (fetch n) h") auto
  with r show ?case by simp
qed

lemma loadDetails_Resolves:
  assumes "loadDetails T fetch hs = Resolves t out"
  shows "length out = length hs"
    and "j < length hs \<Longrightarrow> \<exists>d\<le>t. detailTask T (fetch j) (hs ! j) = Resolves d (out ! j)"
proof -
  from assms obtain rs where r: "allSettled (detailPromises T fetch 0 hs) = Resolves t rs" and o: "out = fulfilledValues rs"
    by (auto simp: loadDetails_def split: promise.splits elim!: await.elims)
  from allSettled_detailPromises[OF r] o show "length out = length hs" by simp
  from allSettled_detailPromises[OF r] o show "j < length hs \<Longrightarrow> \<exists>d\<le>t. detailTask T (fetch j) (hs ! j) = Resolves d (out ! j)" by simp
qed


lemma loadDetails_settles:
  assumes "\<And>j. j < length hs \<Longrightarrow> detailTask T (fetch j) (hs ! j) \<noteq> Pending"
  shows "\<exists>t out. loadDetails T fetch hs = Resolves t out"
proof -
  from allSettled_detailPromises_settle[of hs T fetch 0] assms obtain t rs where "allSettled (detailPromises T fetch 0 hs) = Resolves t rs" by auto
  then show ?thesis by (simp add: loadDetails_def)
qed

lemma later_Resolves: "later t p = Resolves t' v \<Longrightarrow> \<exists>d. p = Resolves d v \<and> t' = t + d"
  by (cases p) auto

text \<open>The three courses of a task, and what the task resolves with in each.\<close>

lemma course_Stalls:
  "courseOf (setTimeoutDelay T) (f (url p)) = Stalls \<longleftrightarrow> detailTask T f p = Pending"
  by (cases "f (url p)")
     (auto simp: courseOf_def detailTask_cases split: promise.splits json.splits)


lemma course_Delivers:
  "courseOf (setTimeoutDelay T) (f (url p)) = Delivers x \<Longrightarrow>
     \<exists>d. detailTask T f p =
       Resolves d \<lparr>name = name p, url = url p, image = front_default (sprites x),
                    isLoading = Some False\<rparr>"
  by (cases "f (url p)")
     (auto simp: courseOf_def detailTask_cases split: promise.splits json.splits if_splits)

lemma loadDetails_no_stall:
  assumes "\<forall>k<length hs. courseOf (setTimeoutDelay T) (fetch k (url (hs ! k))) \<noteq> Stalls"
  shows "\<exists>t out. loadDetails T fetch hs = Resolves t out"
  using assms by (intro loadDetails_settles) (simp add: course_Stalls)

text \<open>
  One item per handle, in the handles' order and under their names and addresses, whenever
  no task stalls.
\<close>

lemma one_item_per_handle:
  assumes "\<forall>k<length handles.
     courseOf (setTimeoutDelay timeoutMs) (fetch k (url (handles ! k))) \<noteq> Stalls"
  shows "\<exists>t out. loadDetails timeoutMs fetch handles = Resolves t out \<and>
     length out = length handles \<and>
     map name out = map name handles \<and> map url out = map url handles"
proof -
  from loadDetails_no_stall[of handles timeoutMs fetch] assms obtain t out where
    r: "loadDetails timeoutMs fetch handles = Resolves t out" by blast
  note len = loadDetails_Resolves(1)[OF r]
  have nth: "name (out ! k) = name (handles ! k) \<and> url (out ! k) = url (handles ! k)"
    if "k < length handles" for k
    using loadDetails_Resolves(2)[OF r that] detailTask_Resolves by blast
  have "map name out = map name handles" "map url out = map url handles"
    using len nth by (auto intro: nth_equalityI)
  with r len show ?thesis by blast
qed



lemma detailTask_success:
  "f (url p) = Resolves d r \<Longrightarrow> d < setTimeoutDelay T \<Longrightarrow> json r = Resolves d' (Typed x) \<Longrightarrow>
   detailTask T f p = Resolves (d + d')
     \<lparr>name = name p, url = url p, image = front_default (sprites x), isLoading = Some False\<rparr>"
  by (simp add: detailTask_cases)

text \<open>
  What the timer achieves: a request with no response when it fires is aborted, and its task
  resolves at that moment with \<open>image = None\<close>. Without a \<open>requestTimeout\<close> option the
  timer is set to 10000 ms.
\<close>

lemma detailTask_timeout:
  "f (url p) = Pending \<or> (\<exists>d r. f (url p) = Resolves d r \<and> setTimeoutDelay T \<le> d) \<or>
     (\<exists>d e. f (url p) = Rejects d e \<and> setTimeoutDelay T \<le> d) \<Longrightarrow>
   detailTask T f p = Resolves (setTimeoutDelay T)
     \<lparr>name = name p, url = url p, image = None, isLoading = Some False\<rparr>"
  by (auto simp: detailTask_cases)

lemma setTimeoutDelay_in_range: "1 \<le> ms \<Longrightarrow> ms < 2 ^ 31 \<Longrightarrow> setTimeoutDelay ms = ms"
  by (simp add: setTimeoutDelay_def)

lemma requestTimeout_default:
  "requestTimeout options = None \<Longrightarrow> requestTimeoutOf options = 10000"
  by (simp add: requestTimeoutOf_def)

text \<open>
  The status of a response is never read: a response with a non-success status is treated
  like any other, and raises an error only when its body does not parse to a record.
\<close>

lemma status_not_read:
  "detailTask T (\<lambda>u. Resolves d (r\<lparr>ok := b\<rparr>)) p = detailTask T (\<lambda>u. Resolves d r) p"
  by (simp add: detailTask_def)


section \<open>The selection loop\<close>

lemma validRandom_less: "validRandom random \<Longrightarrow> 0 < len \<Longrightarrow> random i len < len"
  by (metis validRandom_def max.absorb2 Suc_leI One_nat_def)

lemma selectLoop_exit:
  "\<not> int (length rp) < cnt \<Longrightarrow> selectLoop data cnt random i used rp = Some (Inr rp)"
  by (subst selectLoop.simps) simp

lemma selectLoop_skip:
  "int (length rp) < cnt \<Longrightarrow> random i (length (results d)) \<in> used \<Longrightarrow>
   selectLoop (Typed d) cnt random i used rp = selectLoop (Typed d) cnt random (Suc i) used rp"
  by (subst selectLoop.simps) simp

lemma selectLoop_take:
  "int (length rp) < cnt \<Longrightarrow> random i (length (results d)) \<notin> used \<Longrightarrow>
   random i (length (results d)) < length (results d) \<Longrightarrow>
   selectLoop (Typed d) cnt random i used rp =
   selectLoop (Typed d) cnt random (Suc i) (insert (random i (length (results d))) used)
     (rp @ [placeholder (results d ! random i (length (results d)))])"
  by (subst selectLoop.simps) (simp add: Let_def)

lemma selectLoop_skips:
  assumes "int (length rp) < cnt"
    and "\<And>m. i \<le> m \<Longrightarrow> m < i + n \<Longrightarrow> random m (length (results d)) \<in> used"
  shows "selectLoop (Typed d) cnt random i used rp = selectLoop (Typed d) cnt random (i + n) used rp"
  using assms(2)
proof (induction n arbitrary: i)
  case 0
  then show ?case by simp
next
  case (Suc n)
  have "selectLoop (Typed d) cnt random i used rp = selectLoop (Typed d) cnt random (Suc i) used rp"
    using assms(1) Suc.prems[of i] by (intro selectLoop_skip) auto
  also have "\<dots> = selectLoop (Typed d) cnt random (Suc i + n) used rp"
    using Suc.prems by (intro Suc.IH) auto
  finally show ?case by simp
qed

lemma selectLoop_returns:
  assumes valid: "validRandom random" and fair: "fairRandom random (length (results d))"
    and le: "cnt \<le> int (length (results d))"
  shows "distinct js \<Longrightarrow> set js \<subseteq> {..<length (results d)} \<Longrightarrow>
     \<exists>js'. selectLoop (Typed d) cnt random i (set js) (selected d js) = Some (Inr (selected d js'))
        \<and> distinct js' \<and> set js' \<subseteq> {..<length (results d)}
        \<and> int (length js') = max (int (length js)) cnt"
proof (induction "nat (cnt - int (length js))" arbitrary: js i)
  case 0
  then have "\<not> int (length (selected d js)) < cnt" by (simp add: selected_def)
  from selectLoop_exit[OF this] 0 show ?case by (intro exI[of _ js]) auto
next
  case (Suc n)
  let ?len = "length (results d)"
  let ?idx = "\<lambda>m. random m ?len"
  from Suc.hyps(2) have lt: "int (length js) < cnt" by linarith
  with le have "length js < ?len" by linarith
  moreover have "card (set js) = length js" using Suc.prems(1) by (simp add: distinct_card)
  ultimately have "card (set js) < card {..<?len}" by simp
  then have "\<not> {..<?len} \<subseteq> set js" using card_mono[of "set js" "{..<?len}"] by auto
  then obtain k where k: "k < ?len" "k \<notin> set js" by auto
  from fair k(1) obtain j where j: "i \<le> j" "?idx j = k" unfolding fairRandom_def by blast
  define P where "P m \<longleftrightarrow> i \<le> m \<and> ?idx m \<notin> set js" for m
  have "P j" using j k by (simp add: P_def)
  define m where "m = (LEAST m. P m)"
  have Pm: "P m" unfolding m_def using \<open>P j\<close> by (rule LeastI)
  have least: "\<And>m'. m' < m \<Longrightarrow> \<not> P m'" unfolding m_def by (rule not_less_Least)
  from Pm have im: "i \<le> m" and fresh: "?idx m \<notin> set js" by (simp_all add: P_def)
  have len_pos: "0 < ?len" using k(1) by fastforce
  have idx_lt: "?idx m < ?len" using valid len_pos by (rule validRandom_less)
  have lt': "int (length (selected d js)) < cnt" using lt by (simp add: selected_def)
  have skip: "selectLoop (Typed d) cnt random i (set js) (selected d js)
      = selectLoop (Typed d) cnt random (i + (m - i)) (set js) (selected d js)"
  proof (rule selectLoop_skips[OF lt'])
    fix m' assume "i \<le> m'" "m' < i + (m - i)"
    then have "m' < m" using im by simp
    from least[OF this] \<open>i \<le> m'\<close> show "?idx m' \<in> set js" by (simp add: P_def)
  qed
  have take: "selectLoop (Typed d) cnt random m (set js) (selected d js)
      = selectLoop (Typed d) cnt random (Suc m) (set (js @ [?idx m])) (selected d (js @ [?idx m]))"
    using selectLoop_take[where rp = "selected d js" and cnt = cnt and random = random and i = m
        and d = d and used = "set js"] lt' fresh idx_lt by (simp add: selected_def)
  have n: "n = nat (cnt - int (length (js @ [?idx m])))" using Suc.hyps(2) by simp
  have d': "distinct (js @ [?idx m])" using Suc.prems(1) fresh by simp
  have s': "set (js @ [?idx m]) \<subseteq> {..<?len}" using Suc.prems(2) idx_lt by simp
  from Suc.hyps(1)[OF n d' s', of "Suc m"] obtain js' where
    js': "selectLoop (Typed d) cnt random (Suc m) (set (js @ [?idx m])) (selected d (js @ [?idx m])) = Some (Inr (selected d js'))"
      "distinct js'" "set js' \<subseteq> {..<?len}" "int (length js') = max (int (length (js @ [?idx m]))) cnt"
    by blast
  have "selectLoop (Typed d) cnt random i (set js) (selected d js) = Some (Inr (selected d js'))"
    using skip take js'(1) im by simp
  moreover have "int (length js') = max (int (length js)) cnt" using js'(4) lt by simp
  ultimately show ?case using js'(2,3) by blast
qed

lemma selectLoop_spins_aux:
  assumes res: "selectLoop data cnt random i used rp = Some y"
  shows "validRandom random \<and> data = Typed d \<and> 0 < length (results d) \<and> int (length (results d)) < cnt \<and>
     finite used \<and> used \<subseteq> {..<length (results d)} \<and> length rp = card used \<longrightarrow> False"
proof (rule selectLoop.raw_induct[where P = "\<lambda>data cnt random i used rp y.
     validRandom random \<and> data = Typed d \<and> 0 < length (results d) \<and> int (length (results d)) < cnt \<and>
     finite used \<and> used \<subseteq> {..<length (results d)} \<and> length rp = card used \<longrightarrow> False", OF _ res])
  fix loop :: "PokemonListResponse json \<Rightarrow> int \<Rightarrow> (nat \<Rightarrow> nat \<Rightarrow> nat) \<Rightarrow> nat \<Rightarrow> nat set \<Rightarrow>
     PokemonWithImage list \<Rightarrow> (jsError + PokemonWithImage list) option"
  fix data cnt random i used rp y
  assume IH: "\<And>data cnt random i used rp y. loop data cnt random i used rp = Some y \<Longrightarrow>
     validRandom random \<and> data = Typed d \<and> 0 < length (results d) \<and> int (length (results d)) < cnt \<and>
     finite used \<and> used \<subseteq> {..<length (results d)} \<and> length rp = card used \<longrightarrow> False"
  assume body: "(if int (length rp) < cnt then
        (case data of
           Malformed \<Rightarrow> Some (Inl TypeError)
         | Typed d \<Rightarrow>
             (let randomIndex = random i (length (results d)) in
              if randomIndex \<notin> used then
                (if randomIndex < length (results d) then
                   loop data cnt random (Suc i) (insert randomIndex used)
                     (rp @ [placeholder (results d ! randomIndex)])
                 else Some (Inl TypeError))
              else loop data cnt random (Suc i) used rp))
      else Some (Inr rp)) = Some y"
  show "validRandom random \<and> data = Typed d \<and> 0 < length (results d) \<and> int (length (results d)) < cnt \<and>
     finite used \<and> used \<subseteq> {..<length (results d)} \<and> length rp = card used \<longrightarrow> False"
  proof (intro impI, elim conjE)
    let ?len = "length (results d)"
    let ?k = "random i ?len"
    assume valid: "validRandom random" and data: "data = Typed d" and pos: "0 < ?len"
      and lt: "int ?len < cnt" and fin: "finite used" and sub: "used \<subseteq> {..<?len}"
      and len: "length rp = card used"
    have "card used \<le> card {..<?len}" using sub by (intro card_mono) auto
    then have enter: "int (length rp) < cnt" using len lt by simp
    have k: "?k < ?len" using valid pos by (rule validRandom_less)
    show False
    proof (cases "?k \<in> used")
      case True
      with body enter data have "loop data cnt random (Suc i) used rp = Some y" by (simp add: Let_def)
      from IH[OF this] valid data pos lt fin sub len show False by blast
    next
      case False
      with body enter data k have "loop data cnt random (Suc i) (insert ?k used) (rp @ [placeholder (results d ! ?k)]) = Some y"
        by (simp add: Let_def)
      note step = IH[OF this]
      have "finite (insert ?k used)" "insert ?k used \<subseteq> {..<?len}"
        "length (rp @ [placeholder (results d ! ?k)]) = card (insert ?k used)"
        using fin sub k len False by auto
      with step valid data pos lt show False by blast
    qed
  qed
qed

lemma selectLoop_spins:
  assumes "validRandom random" "0 < length (results d)" "int (length (results d)) < cnt"
  shows "selectLoop (Typed d) cnt random 0 {} [] = None"
proof (cases "selectLoop (Typed d) cnt random 0 {} []")
  case None
  then show ?thesis .
next
  case (Some y)
  from selectLoop_spins_aux[OF this, of d] assms show ?thesis by simp
qed


lemma selectLoop_Malformed:
  "0 < cnt \<Longrightarrow> selectLoop Malformed cnt random i used [] = Some (Inl TypeError)"
  by (subst selectLoop.simps) simp

text \<open>
  An empty list response makes the first draw read \<open>data.results[0]\<close>, which is
  \<open>undefined\<close>: the loop throws.
\<close>

lemma selectLoop_empty:
  "validRandom random \<Longrightarrow> 0 < cnt \<Longrightarrow> selectLoop (Typed \<lparr>results = []\<rparr>) cnt random 0 {} [] = Some (Inl TypeError)"
  by (subst selectLoop.simps) (simp add: validRandom_def)

text \<open>
  What the loop returns, when it returns: the placeholders of entries at pairwise distinct
  indices, as many as asked for. Nothing is assumed about the random source.
\<close>

lemma selectLoop_sound_aux:
  assumes res: "selectLoop data cnt random i used rp = Some y"
  shows "\<forall>js out. data = Typed d \<and> y = Inr out \<and> used = set js \<and> rp = selected d js \<and>
       distinct js \<and> set js \<subseteq> {..<length (results d)} \<longrightarrow>
     (\<exists>js'. out = selected d js' \<and> distinct js' \<and> set js' \<subseteq> {..<length (results d)} \<and>
        int (length js') = max (int (length js)) cnt)"
proof (rule selectLoop.raw_induct[where P = "\<lambda>data cnt random i used rp y.
     \<forall>js out. data = Typed d \<and> y = Inr out \<and> used = set js \<and> rp = selected d js \<and>
       distinct js \<and> set js \<subseteq> {..<length (results d)} \<longrightarrow>
     (\<exists>js'. out = selected d js' \<and> distinct js' \<and> set js' \<subseteq> {..<length (results d)} \<and>
        int (length js') = max (int (length js)) cnt)", OF _ res])
  fix loop :: "PokemonListResponse json \<Rightarrow> int \<Rightarrow> (nat \<Rightarrow> nat \<Rightarrow> nat) \<Rightarrow> nat \<Rightarrow> nat set \<Rightarrow>
     PokemonWithImage list \<Rightarrow> (jsError + PokemonWithImage list) option"
  fix data cnt random i used rp y
  assume IH: "\<And>data cnt random i used rp y. loop data cnt random i used rp = Some y \<Longrightarrow>
     \<forall>js out. data = Typed d \<and> y = Inr out \<and> used = set js \<and> rp = selected d js \<and>
       distinct js \<and> set js \<subseteq> {..<length (results d)} \<longrightarrow>
     (\<exists>js'. out = selected d js' \<and> distinct js' \<and> set js' \<subseteq> {..<length (results d)} \<and>
        int (length js') = max (int (length js)) cnt)"
  assume body: "(if int (length rp) < cnt then
        (case data of
           Malformed \<Rightarrow> Some (Inl TypeError)
         | Typed d \<Rightarrow>
             (let randomIndex = random i (length (results d)) in
              if randomIndex \<notin> used then
                (if randomIndex < length (results d) then
                   loop data cnt random (Suc i) (insert randomIndex used)
                     (rp @ [placeholder (results d ! randomIndex)])
                 else Some (Inl TypeError))
              else loop data cnt random (Suc i) used rp))
      else Some (Inr rp)) = Some y"
  show "\<forall>js out. data = Typed d \<and> y = Inr out \<and> used = set js \<and> rp = selected d js \<and>
       distinct js \<and> set js \<subseteq> {..<length (results d)} \<longrightarrow>
     (\<exists>js'. out = selected d js' \<and> distinct js' \<and> set js' \<subseteq> {..<length (results d)} \<and>
        int (length js') = max (int (length js)) cnt)"
  proof (intro allI impI, elim conjE)
    fix js out
    let ?len = "length (results d)"
    let ?k = "random i ?len"
    assume data: "data = Typed d" and y: "y = Inr out" and used: "used = set js"
      and rp: "rp = selected d js" and dist: "distinct js" and sub: "set js \<subseteq> {..<?len}"
    have len: "length rp = length js" using rp by (simp add: selected_def)
    show "\<exists>js'. out = selected d js' \<and> distinct js' \<and> set js' \<subseteq> {..<?len} \<and>
        int (length js') = max (int (length js)) cnt"
    proof (cases "int (length rp) < cnt")
      case False
      with body y have "out = rp" by simp
      with rp dist sub False len show ?thesis by (intro exI[of _ js]) auto
    next
      case enter: True
      show ?thesis
      proof (cases "?k \<in> used")
        case True
        with body enter data have "loop data cnt random (Suc i) used rp = Some y" by (simp add: Let_def)
        from IH[OF this] data y used rp dist sub show ?thesis by blast
      next
        case False
        show ?thesis
        proof (cases "?k < ?len")
          case k: True
          with body enter data False
          have "loop data cnt random (Suc i) (insert ?k used) (rp @ [placeholder (results d ! ?k)]) = Some y"
            by (simp add: Let_def)
          note step = IH[OF this]
          have "insert ?k used = set (js @ [?k])" "rp @ [placeholder (results d ! ?k)] = selected d (js @ [?k])"
            "distinct (js @ [?k])" "set (js @ [?k]) \<subseteq> {..<?len}"
            using used rp dist sub False k by (auto simp: selected_def)
          with step data y obtain js' where
            js': "out = selected d js'" "distinct js'" "set js' \<subseteq> {..<?len}"
              "int (length js') = max (int (length (js @ [?k]))) cnt"
            by blast
          from js'(4) enter len have "int (length js') = max (int (length js)) cnt" by simp
          with js' show ?thesis by blast
        next
          case False
          with body enter data \<open>?k \<notin> used\<close> y show ?thesis by (simp add: Let_def)
        qed
      qed
    qed
  qed
qed

lemma selectLoop_sound:
  assumes "selectLoop (Typed d) cnt random 0 {} [] = Some (Inr out)"
  shows "\<exists>js. out = selected d js \<and> distinct js \<and> set js \<subseteq> {..<length (results d)} \<and>
     int (length js) = max 0 cnt"
  using selectLoop_sound_aux[OF assms, of d] by (simp add: selected_def)

text \<open>One item asked for: the first draw decides.\<close>

lemma one_selection:
  "selectLoop (Typed d) 1 (\<lambda>i len. j) 0 {} [] =
     (if j < length (results d) then Some (Inr [placeholder (results d ! j)])
      else Some (Inl TypeError))"
  by (subst selectLoop.simps, subst selectLoop.simps) (simp add: Let_def)

text \<open>
  The loop relies on the random source: when every further draw hits an index already used,
  it never ends.
\<close>

lemma selectLoop_stuck_aux:
  assumes res: "selectLoop data cnt random i used rp = Some y"
  shows "data = Typed d \<and> int (length rp) < cnt \<and>
     (\<forall>j\<ge>i. random j (length (results d)) \<in> used) \<longrightarrow> False"
proof (rule selectLoop.raw_induct[where P = "\<lambda>data cnt random i used rp y.
     data = Typed d \<and> int (length rp) < cnt \<and>
     (\<forall>j\<ge>i. random j (length (results d)) \<in> used) \<longrightarrow> False", OF _ res])
  fix loop :: "PokemonListResponse json \<Rightarrow> int \<Rightarrow> (nat \<Rightarrow> nat \<Rightarrow> nat) \<Rightarrow> nat \<Rightarrow> nat set \<Rightarrow>
     PokemonWithImage list \<Rightarrow> (jsError + PokemonWithImage list) option"
  fix data cnt random i used rp y
  assume IH: "\<And>data cnt random i used rp y. loop data cnt random i used rp = Some y \<Longrightarrow>
     data = Typed d \<and> int (length rp) < cnt \<and>
     (\<forall>j\<ge>i. random j (length (results d)) \<in> used) \<longrightarrow> False"
  assume body: "(if int (length rp) < cnt then
        (case data of
           Malformed \<Rightarrow> Some (Inl TypeError)
         | Typed d \<Rightarrow>
             (let randomIndex = random i (length (results d)) in
              if randomIndex \<notin> used then
                (if randomIndex < length (results d) then
                   loop data cnt random (Suc i) (insert randomIndex used)
                     (rp @ [placeholder (results d ! randomIndex)])
                 else Some (Inl TypeError))
              else loop data cnt random (Suc i) used rp))
      else Some (Inr rp)) = Some y"
  show "data = Typed d \<and> int (length rp) < cnt \<and>
     (\<forall>j\<ge>i. random j (length (results d)) \<in> used) \<longrightarrow> False"
  proof (intro impI, elim conjE)
    assume data: "data = Typed d" and enter: "int (length rp) < cnt"
      and stuck: "\<forall>j\<ge>i. random j (length (results d)) \<in> used"
    from stuck have "random i (length (results d)) \<in> used" by simp
    with body enter data have "loop data cnt random (Suc i) used rp = Some y" by (simp add: Let_def)
    note step = IH[OF this]
    from stuck have "\<forall>j\<ge>Suc i. random j (length (results d)) \<in> used" by simp
    with step data enter show False by blast
  qed
qed

lemma selectLoop_stuck:
  assumes "int (length rp) < cnt"
    and "\<forall>j\<ge>i. random j (length (results d)) \<in> used"
  shows "selectLoop (Typed d) cnt random i used rp = None"
proof (cases "selectLoop (Typed d) cnt random i used rp")
  case None
  then show ?thesis .
next
  case (Some y)
  from selectLoop_stuck_aux[OF this, of d] assms show ?thesis by simp
qed

lemma cyclicRandom_valid: "validRandom cyclicRandom"
  by (simp add: validRandom_def cyclicRandom_def)

lemma cyclicRandom_fair: "fairRandom cyclicRandom len"
  unfolding fairRandom_def
proof (intro allI impI)
  fix i k :: nat assume k: "k < len"
  then have "cyclicRandom (i * len + k) len = k" by (simp add: cyclicRandom_def)
  moreover have "i \<le> i * len + k" using k by (cases len) simp_all
  ultimately show "\<exists>j\<ge>i. cyclicRandom j len = k" by blast
qed


section \<open>The whole routine\<close>

text \<open>
  The routine is the list request, the selection loop and the detail phase in sequence: it
  returns what the detail phase returns for the selected entries, later by the time the list
  data took to arrive.
\<close>

lemma fetch_returns:
  assumes "await (listFetch env) json = Resolves t0 data"
    and "selectLoop data (countOf options) (floorRandom env) 0 {} [] = Some (Inr hs)"
    and "loadDetails (requestTimeoutOf options) (detailFetch env) hs = Resolves d out"
  shows "fetchPokemonListWithDetails options env =
     \<lparr>outcome = Resolves (t0 + d) out, calls = listUrl # map url hs\<rparr>"
  using assms by (simp add: fetchPokemonListWithDetails_def)

lemma fetch_Resolves:
  assumes "outcome (fetchPokemonListWithDetails options env) = Resolves t out"
  shows "\<exists>t0 data hs d. await (listFetch env) json = Resolves t0 data \<and>
     selectLoop data (countOf options) (floorRandom env) 0 {} [] = Some (Inr hs) \<and>
     loadDetails (requestTimeoutOf options) (detailFetch env) hs = Resolves d out \<and>
     t = t0 + d \<and>
     calls (fetchPokemonListWithDetails options env) = listUrl # map url hs"
proof (cases "await (listFetch env) json")
  case (Resolves t0 data)
  show ?thesis
  proof (cases "selectLoop data (countOf options) (floorRandom env) 0 {} []")
    case None
    with Resolves assms show ?thesis by (simp add: fetchPokemonListWithDetails_def)
  next
    case (Some y)
    show ?thesis
    proof (cases y)
      case (Inl e)
      with Some Resolves assms show ?thesis by (simp add: fetchPokemonListWithDetails_def)
    next
      case (Inr hs)
      with Some Resolves assms
      have "later t0 (loadDetails (requestTimeoutOf options) (detailFetch env) hs) = Resolves t out"
        by (simp add: fetchPokemonListWithDetails_def)
      from later_Resolves[OF this] obtain d where
        "loadDetails (requestTimeoutOf options) (detailFetch env) hs = Resolves d out" "t = t0 + d"
        by blast
      moreover have "calls (fetchPokemonListWithDetails options env) = listUrl # map url hs"
        using Inr Some Resolves by (simp add: fetchPokemonListWithDetails_def)
      ultimately show ?thesis using Inr Some Resolves by blast
    qed
  qed
next
  case (Rejects t0 e)
  with assms show ?thesis by (simp add: fetchPokemonListWithDetails_def)
next
  case Pending
  with assms show ?thesis by (simp add: fetchPokemonListWithDetails_def)
qed


section \<open>The example scenario, evaluated\<close>

lemma placeholder_sel [simp]:
  "name (placeholder p) = name p" "url (placeholder p) = url p"
  "image (placeholder p) = None" "isLoading (placeholder p) = Some True"
  by (simp_all add: placeholder_def)

lemma scenario_selection:
  "selectLoop (Typed scenarioList) 3 cyclicRandom 0 {} [] =
     Some (Inr [placeholder pikachu, placeholder charizard, placeholder bulbasaur])"
  by (simp add: selectLoop.simps cyclicRandom_def scenarioList_def)

lemma scenario_details:
  "loadDetails 50 scenarioFetch [placeholder pikachu, placeholder charizard, placeholder bulbasaur] =
     Resolves 50 [resolved pikachu (Some ''pikachu.png''), resolved charizard None, resolved bulbasaur None]"
  by (simp add: loadDetails_def detailPromises_def detailTask_def scenarioFetch_def jsonBody_def
      spriteRecord_def resolved_def placeholder_def setTimeoutDelay_def)

lemma scenario_run:
  "fetchPokemonListWithDetails scenarioOptions scenarioEnv =
     \<lparr>outcome = Resolves 50 [resolved pikachu (Some ''pikachu.png''), resolved charizard None, resolved bulbasaur None],
      calls = [listUrl, url pikachu, url charizard, url bulbasaur]\<rparr>"
  by (simp add: fetchPokemonListWithDetails_def scenarioEnv_def scenarioOptions_def countOf_def
      requestTimeoutOf_def jsonBody_def scenario_selection scenario_details)


lemma scenario_no_stall:
  "\<forall>j<length [placeholder pikachu, placeholder charizard, placeholder bulbasaur].
      courseOf (setTimeoutDelay 50) (scenarioFetch j
        (url ([placeholder pikachu, placeholder charizard, placeholder bulbasaur] ! j))) \<noteq> Stalls"
  by (simp add: less_Suc_eq nth_Cons' courseOf_def scenarioFetch_def jsonBody_def setTimeoutDelay_def)


section \<open>The claims\<close>

text \<open>
  C1 fails on a retrieval that does not complete within the timeout because its body never
  finishes: the first item succeeds, the response for the second arrives after 5 ms and its
  body stalls, and the routine returns no item at all, where C1 promises two. This is the
  defect of C4 (the timer is cleared at line 53 before the body is read at line 55). When no
  body stalls the code does what C1 says, see \<open>one_item_per_handle\<close>.
\<close>

theorem stalled_body_withholds_batch:
  "specOutcome 50 (stalledSiblingFetch 0 (url (placeholder pikachu))) = Success \<and>
   specOutcome 50 (stalledSiblingFetch 1 (url (placeholder charizard))) = Timeout \<and>
   loadDetails 50 stalledSiblingFetch [placeholder pikachu, placeholder charizard] = Pending \<and>
   outcome (fetchPokemonListWithDetails twoOptions
              (scenarioEnv\<lparr>detailFetch := stalledSiblingFetch\<rparr>)) = Pending"
proof -
  have s: "selectLoop (Typed scenarioList) 2 cyclicRandom 0 {} [] =
      Some (Inr [placeholder pikachu, placeholder charizard])"
    by (simp add: selectLoop.simps cyclicRandom_def scenarioList_def)
  have l: "loadDetails 50 stalledSiblingFetch [placeholder pikachu, placeholder charizard] = Pending"
    by (simp add: loadDetails_def detailPromises_def detailTask_def stalledSiblingFetch_def
        jsonBody_def setTimeoutDelay_def)
  have "outcome (fetchPokemonListWithDetails twoOptions
              (scenarioEnv\<lparr>detailFetch := stalledSiblingFetch\<rparr>)) = Pending"
    by (simp add: fetchPokemonListWithDetails_def scenarioEnv_def twoOptions_def countOf_def
        requestTimeoutOf_def jsonBody_def s l)
  with l show ?thesis
    by (simp add: specOutcome_def stalledSiblingFetch_def jsonBody_def)
qed




text \<open>
  C3 as stated fails: a retrieval that succeeds with a record whose \<open>front_default\<close> is
  \<open>null\<close> yields an item whose image is \<open>None\<close>, with no failure anywhere.
\<close>

theorem success_with_null_image:
  "specOutcome 50 (nullSpriteFetch 0 (url (placeholder pikachu))) = Success \<and>
   loadDetails 50 nullSpriteFetch [placeholder pikachu] = Resolves 10 [resolved pikachu None] \<and>
   image (resolved pikachu None) = None"
  by (simp add: specOutcome_def nullSpriteFetch_def jsonBody_def spriteRecord_def loadDetails_def
      detailTask_def resolved_def setTimeoutDelay_def)

text \<open>
  C3, amended. An item whose response arrives before the timer fires and whose body is
  parsed to a record is unaffected by the other items: its own task resolves with the
  \<open>front_default\<close> of its record as image (not \<open>None\<close> exactly when that field is not),
  whatever the others do; that is the item returned at its position whenever the batch
  returns; and the batch does return whenever every other retrieval either succeeds or raises
  an error, the abort by the timer included.
\<close>

theorem success_is_isolated:
  assumes "k < length handles"
    and "fetch k (url (handles ! k)) = Resolves d r" and "d < setTimeoutDelay timeoutMs"
    and "json r = Resolves d' (Typed p)"
  shows "detailTask timeoutMs (fetch k) (handles ! k) =
       Resolves (d + d') \<lparr>name = name (handles ! k), url = url (handles ! k),
                            image = front_default (sprites p), isLoading = Some False\<rparr> \<and>
     (\<forall>t out. loadDetails timeoutMs fetch handles = Resolves t out \<longrightarrow>
        out ! k = \<lparr>name = name (handles ! k), url = url (handles ! k),
                   image = front_default (sprites p), isLoading = Some False\<rparr>) \<and>
     ((\<forall>j<length handles.
          courseOf (setTimeoutDelay timeoutMs) (fetch j (url (handles ! j))) \<noteq> Stalls) \<longrightarrow>
      (\<exists>t out. loadDetails timeoutMs fetch handles = Resolves t out \<and>
         length out = length handles \<and>
         out ! k = \<lparr>name = name (handles ! k), url = url (handles ! k),
                    image = front_default (sprites p), isLoading = Some False\<rparr>))"
proof -
  let ?item = "\<lparr>name = name (handles ! k), url = url (handles ! k),
                 image = front_default (sprites p), isLoading = Some False\<rparr>"
  have task: "detailTask timeoutMs (fetch k) (handles ! k) = Resolves (d + d') ?item"
    using detailTask_success[where f = "fetch k" and p = "handles ! k" and T = timeoutMs,
        OF assms(2,3,4)] .
  have ret: "out ! k = ?item" if "loadDetails timeoutMs fetch handles = Resolves t out" for t out
    using loadDetails_Resolves(2)[OF that assms(1)] task by auto
  have "\<exists>t out. loadDetails timeoutMs fetch handles = Resolves t out \<and>
         length out = length handles \<and> out ! k = ?item"
    if "\<forall>j<length handles.
          courseOf (setTimeoutDelay timeoutMs) (fetch j (url (handles ! j))) \<noteq> Stalls"
  proof -
    from loadDetails_no_stall[of handles timeoutMs fetch] that obtain t out where
      r: "loadDetails timeoutMs fetch handles = Resolves t out" by blast
    with ret[OF r] loadDetails_Resolves(1)[OF r] show ?thesis by blast
  qed
  with task ret show ?thesis by blast
qed

text \<open>
  Witness for C3: the first item of the scenario, next to a failure and a timeout.
\<close>

theorem success_is_isolated_witness:
  "scenarioFetch 0 (url (placeholder pikachu)) =
     Resolves 10 (jsonBody (spriteRecord (Some ''pikachu.png''))) \<and>
   10 < setTimeoutDelay 50 \<and>
   detailTask 50 (scenarioFetch 0) (placeholder pikachu) =
     Resolves 10 (resolved pikachu (Some ''pikachu.png'')) \<and>
   (\<exists>t out. loadDetails 50 scenarioFetch
        [placeholder pikachu, placeholder charizard, placeholder bulbasaur] = Resolves t out \<and>
      out ! 0 = resolved pikachu (Some ''pikachu.png''))"
proof -
  let ?hs = "[placeholder pikachu, placeholder charizard, placeholder bulbasaur]"
  have k: "0 < length ?hs" by simp
  have f: "scenarioFetch 0 (url (?hs ! 0)) = Resolves 10 (jsonBody (spriteRecord (Some ''pikachu.png'')))"
    by (simp add: scenarioFetch_def)
  have d: "10 < setTimeoutDelay 50" by (simp add: setTimeoutDelay_def)
  have j: "json (jsonBody (spriteRecord (Some ''pikachu.png''))) = Resolves 0 (Typed (spriteRecord (Some ''pikachu.png'')))"
    by (simp add: jsonBody_def)
  note t = success_is_isolated[where handles = ?hs and timeoutMs = 50 and fetch = scenarioFetch
      and k = 0, OF k f d j]
  from t have "detailTask 50 (scenarioFetch 0) (placeholder pikachu) =
     Resolves 10 (resolved pikachu (Some ''pikachu.png''))"
    by (simp add: resolved_def spriteRecord_def)
  moreover from t scenario_no_stall
  have "\<exists>t out. loadDetails 50 scenarioFetch ?hs = Resolves t out \<and>
      out ! 0 = resolved pikachu (Some ''pikachu.png'')"
    by (simp add: resolved_def spriteRecord_def) blast
  ultimately show ?thesis using f d by simp
qed

text \<open>
  C4 fails on a response that arrives before the timer fires and whose body never finishes:
  line 53 clears the timer before line 55 awaits \<open>json()\<close>, so nothing cancels the
  retrieval, the task stays pending, and so does the routine.
\<close>

theorem body_stall_hangs:
  "specOutcome 50 (stalledFetch 0 (url (placeholder pikachu))) = Timeout \<and>
   courseOf (setTimeoutDelay 50) (stalledFetch 0 (url (placeholder pikachu))) = Stalls \<and>
   detailTask 50 (stalledFetch 0) (placeholder pikachu) = Pending \<and>
   outcome (fetchPokemonListWithDetails oneOptions ((selectEnv 0)\<lparr>detailFetch := stalledFetch\<rparr>)) = Pending"
  by (simp add: specOutcome_def courseOf_def stalledFetch_def detailTask_def
      fetchPokemonListWithDetails_def selectEnv_def oneOptions_def jsonBody_def countOf_def
      requestTimeoutOf_def one_selection scenarioList_def loadDetails_def detailPromises_def
      setTimeoutDelay_def)

text \<open>
  C5 as stated fails: the join keeps the order of submission. Here the second task settles
  after 10 ms and the first after 30 ms, and the first is still returned first.
\<close>

theorem join_keeps_submission_order:
  "detailTask 50 (reversedFetch 0) (placeholder pikachu) =
     Resolves 30 (resolved pikachu (Some ''pikachu.png'')) \<and>
   detailTask 50 (reversedFetch 1) (placeholder charizard) =
     Resolves 10 (resolved charizard (Some ''charizard.png'')) \<and>
   loadDetails 50 reversedFetch [placeholder pikachu, placeholder charizard] =
     Resolves 30 [resolved pikachu (Some ''pikachu.png''), resolved charizard (Some ''charizard.png'')]"
  by (simp add: loadDetails_def detailPromises_def detailTask_def reversedFetch_def jsonBody_def
      spriteRecord_def resolved_def setTimeoutDelay_def)

text \<open>
  C5, amended. Whenever the detail phase returns, its output is in the order of its input:
  the \<open>k\<close>-th item is what the \<open>k\<close>-th task resolved with, whenever that task settled, and
  carries the name and the address of the \<open>k\<close>-th handle.
\<close>

theorem output_in_submission_order:
  assumes "loadDetails timeoutMs fetch handles = Resolves t out"
  shows "map name out = map name handles \<and> map url out = map url handles \<and>
     (\<forall>k<length handles. \<exists>d\<le>t. detailTask timeoutMs (fetch k) (handles ! k) = Resolves d (out ! k))"
proof -
  note len = loadDetails_Resolves(1)[OF assms]
  note nth = loadDetails_Resolves(2)[OF assms]
  have "name (out ! k) = name (handles ! k) \<and> url (out ! k) = url (handles ! k)"
    if "k < length handles" for k
    using nth[OF that] detailTask_Resolves by blast
  then have "map name out = map name handles" "map url out = map url handles"
    using len by (auto intro: nth_equalityI)
  with nth show ?thesis by blast
qed

text \<open>
  Witness for C5: the two tasks that settle in reverse order.
\<close>

theorem output_in_submission_order_witness:
  "loadDetails 50 reversedFetch [placeholder pikachu, placeholder charizard] =
     Resolves 30 [resolved pikachu (Some ''pikachu.png''), resolved charizard (Some ''charizard.png'')] \<and>
   map name [resolved pikachu (Some ''pikachu.png''), resolved charizard (Some ''charizard.png'')] =
     map name [placeholder pikachu, placeholder charizard] \<and>
   map url [resolved pikachu (Some ''pikachu.png''), resolved charizard (Some ''charizard.png'')] =
     map url [placeholder pikachu, placeholder charizard]"
proof -
  have r: "loadDetails 50 reversedFetch [placeholder pikachu, placeholder charizard] =
     Resolves 30 [resolved pikachu (Some ''pikachu.png''), resolved charizard (Some ''charizard.png'')]"
    by (simp add: loadDetails_def detailPromises_def detailTask_def reversedFetch_def jsonBody_def
      spriteRecord_def resolved_def setTimeoutDelay_def)
  from output_in_submission_order[OF r] r show ?thesis by blast
qed

text \<open>
  C6 as stated fails: with \<open>count = 0\<close> the routine still issues the list request, and
  returns only once that response and its body have arrived, here after 120 ms.
\<close>

theorem zero_count_still_lists:
  "fetchPokemonListWithDetails zeroOptions slowListEnv =
     \<lparr>outcome = Resolves 120 [], calls = [listUrl]\<rparr>"
  by (simp add: fetchPokemonListWithDetails_def zeroOptions_def slowListEnv_def countOf_def
      selectLoop_exit loadDetails_def detailPromises_def)

text \<open>
  C6, amended. When no item is requested (\<open>count\<close> is 0, or negative), the routine
  issues exactly one network call, the list request, and no detail request; it resolves
  with the empty sequence at the moment the list response and its body have arrived, and
  rejects or stays pending as they do.
\<close>

theorem zero_count_one_call:
  assumes "countOf options \<le> 0"
  shows "calls (fetchPokemonListWithDetails options env) = [listUrl] \<and>
     outcome (fetchPokemonListWithDetails options env) =
       await (await (listFetch env) json) (\<lambda>data. Resolves 0 [])"
proof -
  have "selectLoop data (countOf options) (floorRandom env) 0 {} [] = Some (Inr [])" for data
    using assms by (intro selectLoop_exit) simp
  then show ?thesis
    by (cases "await (listFetch env) json")
       (simp_all add: fetchPokemonListWithDetails_def loadDetails_def)
qed

text \<open>
  Witness for C6: \<open>count = 0\<close> against the slow list endpoint.
\<close>

theorem zero_count_one_call_witness:
  "countOf zeroOptions \<le> 0 \<and>
   calls (fetchPokemonListWithDetails zeroOptions slowListEnv) = [listUrl] \<and>
   outcome (fetchPokemonListWithDetails zeroOptions slowListEnv) = Resolves 120 []"
proof -
  have c: "countOf zeroOptions \<le> 0" by (simp add: countOf_def zeroOptions_def)
  from zero_count_one_call[OF c, of slowListEnv] c show ?thesis
    by (simp add: slowListEnv_def)
qed

text \<open>
  C7 as stated fails: the entry point takes options only, and lists and selects the handles
  itself. The same options give different handles when the random source differs: here
  every draw gives index 0 in the first call and index 1 in the second.
\<close>

theorem routine_selects_its_handles:
  "fetchPokemonListWithDetails oneOptions (selectEnv 0) =
     \<lparr>outcome = Resolves 40 [resolved pikachu (Some (url pikachu))],
      calls = [listUrl, url pikachu]\<rparr> \<and>
   fetchPokemonListWithDetails oneOptions (selectEnv 1) =
     \<lparr>outcome = Resolves 40 [resolved charizard (Some (url charizard))],
      calls = [listUrl, url charizard]\<rparr>"
  by (simp add: fetchPokemonListWithDetails_def selectEnv_def oneOptions_def jsonBody_def
      countOf_def requestTimeoutOf_def one_selection scenarioList_def loadDetails_def
      detailPromises_def detailTask_def uniformFetch_def resolved_def spriteRecord_def
      setTimeoutDelay_def)

text \<open>
  C7, amended. The entry point takes the options \<open>requestTimeout\<close> and \<open>count\<close> only; it
  issues the list request itself and selects the handles itself. When the list response
  arrives with at least \<open>count\<close> entries, the random source is fair and no detail body
  stalls, the routine returns: one item per selected entry, carrying the names and the
  addresses of \<open>count\<close> entries of the list response at pairwise distinct indices, after
  the network calls made of the list request followed by one detail request per returned
  item, in order. And whenever it returns for a positive \<open>count\<close>, under any random
  source, what it returns is of that kind.
\<close>

theorem handles_come_from_listing:
  "(await (listFetch env) json = Resolves t0 (Typed d) \<and>
    countOf options \<le> int (length (results d)) \<and>
    validRandom (floorRandom env) \<and> fairRandom (floorRandom env) (length (results d)) \<and>
    (\<forall>k u. courseOf (setTimeoutDelay (requestTimeoutOf options)) (detailFetch env k u) \<noteq> Stalls) \<longrightarrow>
    (\<exists>t out js.
       fetchPokemonListWithDetails options env =
         \<lparr>outcome = Resolves t out, calls = listUrl # map url out\<rparr> \<and>
       distinct js \<and> set js \<subseteq> {..<length (results d)} \<and>
       int (length js) = max 0 (countOf options) \<and>
       map name out = map (\<lambda>j. name (results d ! j)) js \<and>
       map url out = map (\<lambda>j. url (results d ! j)) js)) \<and>
   (outcome (fetchPokemonListWithDetails options env) = Resolves t out \<and> 0 < countOf options \<longrightarrow>
    (\<exists>t0 d js. await (listFetch env) json = Resolves t0 (Typed d) \<and>
       distinct js \<and> set js \<subseteq> {..<length (results d)} \<and> int (length js) = countOf options \<and>
       map name out = map (\<lambda>j. name (results d ! j)) js \<and>
       map url out = map (\<lambda>j. url (results d ! j)) js \<and>
       calls (fetchPokemonListWithDetails options env) = listUrl # map url out))"
proof (intro conjI impI)
  assume "await (listFetch env) json = Resolves t0 (Typed d) \<and>
    countOf options \<le> int (length (results d)) \<and>
    validRandom (floorRandom env) \<and> fairRandom (floorRandom env) (length (results d)) \<and>
    (\<forall>k u. courseOf (setTimeoutDelay (requestTimeoutOf options)) (detailFetch env k u) \<noteq> Stalls)"
  then have l: "await (listFetch env) json = Resolves t0 (Typed d)"
    and le: "countOf options \<le> int (length (results d))"
    and valid: "validRandom (floorRandom env)"
    and fair: "fairRandom (floorRandom env) (length (results d))"
    and settle: "\<forall>k u. courseOf (setTimeoutDelay (requestTimeoutOf options)) (detailFetch env k u) \<noteq> Stalls"
    by simp_all
  from selectLoop_returns[OF valid fair le, of "[]" 0] obtain js where
    s: "selectLoop (Typed d) (countOf options) (floorRandom env) 0 {} [] = Some (Inr (selected d js))"
    and js: "distinct js" "set js \<subseteq> {..<length (results d)}"
      "int (length js) = max 0 (countOf options)"
    by (auto simp: selected_def)
  from settle have "\<forall>k<length (selected d js).
     courseOf (setTimeoutDelay (requestTimeoutOf options))
       (detailFetch env k (url (selected d js ! k))) \<noteq> Stalls" by simp
  from one_item_per_handle[where handles = "selected d js"
      and timeoutMs = "requestTimeoutOf options" and fetch = "detailFetch env", OF this]
  obtain t' out where
    r: "loadDetails (requestTimeoutOf options) (detailFetch env) (selected d js) = Resolves t' out"
    and m: "map name out = map name (selected d js)" "map url out = map url (selected d js)"
    by blast
  have "fetchPokemonListWithDetails options env =
      \<lparr>outcome = Resolves (t0 + t') out, calls = listUrl # map url out\<rparr>"
    using fetch_returns[OF l s r] m(2) by simp
  moreover have "map name out = map (\<lambda>j. name (results d ! j)) js"
    "map url out = map (\<lambda>j. url (results d ! j)) js"
    using m by (simp_all add: selected_def)
  ultimately show "\<exists>t out js.
       fetchPokemonListWithDetails options env =
         \<lparr>outcome = Resolves t out, calls = listUrl # map url out\<rparr> \<and>
       distinct js \<and> set js \<subseteq> {..<length (results d)} \<and>
       int (length js) = max 0 (countOf options) \<and>
       map name out = map (\<lambda>j. name (results d ! j)) js \<and>
       map url out = map (\<lambda>j. url (results d ! j)) js"
    using js by blast
next
  assume "outcome (fetchPokemonListWithDetails options env) = Resolves t out \<and> 0 < countOf options"
  then have res: "outcome (fetchPokemonListWithDetails options env) = Resolves t out"
    and pos: "0 < countOf options" by simp_all
  from fetch_Resolves[OF res] obtain t0 data hs d where
    l: "await (listFetch env) json = Resolves t0 data" and
    s: "selectLoop data (countOf options) (floorRandom env) 0 {} [] = Some (Inr hs)" and
    r: "loadDetails (requestTimeoutOf options) (detailFetch env) hs = Resolves d out" and
    c: "calls (fetchPokemonListWithDetails options env) = listUrl # map url hs"
    by blast
  from s pos obtain x where x: "data = Typed x"
    by (cases data) (simp_all add: selectLoop_Malformed)
  from selectLoop_sound[of x] s x obtain js where
    js: "hs = selected x js" "distinct js" "set js \<subseteq> {..<length (results x)}"
      "int (length js) = max 0 (countOf options)" by blast
  note len = loadDetails_Resolves(1)[OF r]
  have nth: "name (out ! k) = name (hs ! k) \<and> url (out ! k) = url (hs ! k)" if "k < length hs" for k
    using loadDetails_Resolves(2)[OF r that] detailTask_Resolves by blast
  have m: "map name out = map name hs" "map url out = map url hs"
    using len nth by (auto intro: nth_equalityI)
  have "map name hs = map (\<lambda>j. name (results x ! j)) js" "map url hs = map (\<lambda>j. url (results x ! j)) js"
    using js(1) by (simp_all add: selected_def)
  with m c l x js pos
  show "\<exists>t0 d js. await (listFetch env) json = Resolves t0 (Typed d) \<and>
       distinct js \<and> set js \<subseteq> {..<length (results d)} \<and> int (length js) = countOf options \<and>
       map name out = map (\<lambda>j. name (results d ! j)) js \<and>
       map url out = map (\<lambda>j. url (results d ! j)) js \<and>
       calls (fetchPokemonListWithDetails options env) = listUrl # map url out"
    by (intro exI[of _ t0] exI[of _ x] exI[of _ js]) simp
qed

text \<open>
  Witness for C7: the scenario, three items requested of a list of three, the random source
  drawing 0, 1, 2 in turn; one retrieval succeeds, one fails and one is aborted.
\<close>

theorem handles_come_from_listing_witness:
  "await (listFetch scenarioEnv) json = Resolves 0 (Typed scenarioList) \<and>
   countOf scenarioOptions \<le> int (length (results scenarioList)) \<and>
   validRandom (floorRandom scenarioEnv) \<and>
   fairRandom (floorRandom scenarioEnv) (length (results scenarioList)) \<and>
   (\<exists>t out js.
       fetchPokemonListWithDetails scenarioOptions scenarioEnv =
         \<lparr>outcome = Resolves t out, calls = listUrl # map url out\<rparr> \<and>
       distinct js \<and> set js \<subseteq> {..<length (results scenarioList)} \<and>
       int (length js) = max 0 (countOf scenarioOptions) \<and>
       map name out = map (\<lambda>j. name (results scenarioList ! j)) js \<and>
       map url out = map (\<lambda>j. url (results scenarioList ! j)) js) \<and>
   outcome (fetchPokemonListWithDetails scenarioOptions scenarioEnv) =
     Resolves 50 [resolved pikachu (Some ''pikachu.png''), resolved charizard None,
                  resolved bulbasaur None] \<and>
   0 < countOf scenarioOptions \<and>
   (\<exists>t0 d js. await (listFetch scenarioEnv) json = Resolves t0 (Typed d) \<and>
       distinct js \<and> set js \<subseteq> {..<length (results d)} \<and>
       int (length js) = countOf scenarioOptions \<and>
       map name [resolved pikachu (Some ''pikachu.png''), resolved charizard None,
                 resolved bulbasaur None] = map (\<lambda>j. name (results d ! j)) js \<and>
       map url [resolved pikachu (Some ''pikachu.png''), resolved charizard None,
                resolved bulbasaur None] = map (\<lambda>j. url (results d ! j)) js \<and>
       calls (fetchPokemonListWithDetails scenarioOptions scenarioEnv) =
         listUrl # map url [resolved pikachu (Some ''pikachu.png''), resolved charizard None,
                            resolved bulbasaur None])"
proof -
  let ?out = "[resolved pikachu (Some ''pikachu.png''), resolved charizard None,
               resolved bulbasaur None]"
  have l: "await (listFetch scenarioEnv) json = Resolves 0 (Typed scenarioList)"
    by (simp add: scenarioEnv_def jsonBody_def)
  have c: "countOf scenarioOptions \<le> int (length (results scenarioList))"
    by (simp add: countOf_def scenarioOptions_def scenarioList_def)
  have v: "validRandom (floorRandom scenarioEnv)"
    by (simp add: scenarioEnv_def cyclicRandom_valid)
  have f: "fairRandom (floorRandom scenarioEnv) (length (results scenarioList))"
    by (simp add: scenarioEnv_def cyclicRandom_fair)
  have s: "\<forall>k u. courseOf (setTimeoutDelay (requestTimeoutOf scenarioOptions))
      (detailFetch scenarioEnv k u) \<noteq> Stalls"
    by (simp add: courseOf_def scenarioEnv_def scenarioFetch_def jsonBody_def)
  have r: "outcome (fetchPokemonListWithDetails scenarioOptions scenarioEnv) = Resolves 50 ?out"
    by (simp add: scenario_run)
  have p: "0 < countOf scenarioOptions" by (simp add: countOf_def scenarioOptions_def)
  note t = handles_come_from_listing[of scenarioEnv 0 scenarioList scenarioOptions 50 ?out]
  from t l c v f s have "\<exists>t out js.
       fetchPokemonListWithDetails scenarioOptions scenarioEnv =
         \<lparr>outcome = Resolves t out, calls = listUrl # map url out\<rparr> \<and>
       distinct js \<and> set js \<subseteq> {..<length (results scenarioList)} \<and>
       int (length js) = max 0 (countOf scenarioOptions) \<and>
       map name out = map (\<lambda>j. name (results scenarioList ! j)) js \<and>
       map url out = map (\<lambda>j. url (results scenarioList ! j)) js"
    by blast
  moreover from t r p have "\<exists>t0 d js. await (listFetch scenarioEnv) json = Resolves t0 (Typed d) \<and>
       distinct js \<and> set js \<subseteq> {..<length (results d)} \<and>
       int (length js) = countOf scenarioOptions \<and>
       map name ?out = map (\<lambda>j. name (results d ! j)) js \<and>
       map url ?out = map (\<lambda>j. url (results d ! j)) js \<and>
       calls (fetchPokemonListWithDetails scenarioOptions scenarioEnv) = listUrl # map url ?out"
    by blast
  ultimately show ?thesis using l c v f r p by blast
qed

text \<open>
  C8. Every item of the sequence the routine returns has \<open>isLoading = false\<close>.
\<close>

theorem returned_items_not_loading:
  assumes "outcome (fetchPokemonListWithDetails options env) = Resolves t out"
  shows "\<forall>x\<in>set out. isLoading x = Some False"
proof
  fix x assume x: "x \<in> set out"
  from fetch_Resolves[OF assms] obtain hs d where
    r: "loadDetails (requestTimeoutOf options) (detailFetch env) hs = Resolves d out" by blast
  from x obtain k where k: "k < length out" "x = out ! k" by (auto simp: in_set_conv_nth)
  with loadDetails_Resolves[OF r] obtain d' where
    "detailTask (requestTimeoutOf options) (detailFetch env k) (hs ! k) = Resolves d' x" by auto
  then show "isLoading x = Some False" by (simp add: detailTask_Resolves)
qed

text \<open>
  Witness for C8: the scenario, run through the whole routine.
\<close>

theorem returned_items_not_loading_witness:
  "outcome (fetchPokemonListWithDetails scenarioOptions scenarioEnv) =
     Resolves 50 [resolved pikachu (Some ''pikachu.png''), resolved charizard None,
                  resolved bulbasaur None] \<and>
   map isLoading [resolved pikachu (Some ''pikachu.png''), resolved charizard None,
                  resolved bulbasaur None] = [Some False, Some False, Some False]"
proof -
  have r: "outcome (fetchPokemonListWithDetails scenarioOptions scenarioEnv) =
     Resolves 50 [resolved pikachu (Some ''pikachu.png''), resolved charizard None,
                  resolved bulbasaur None]"
    by (simp add: scenario_run)
  from returned_items_not_loading[OF r] r show ?thesis by simp
qed

text \<open>
  C9 as stated fails: the loop returns only if the random source keeps drawing indices not
  yet used. With three entries and two items requested, a source whose every draw gives index
  0 (\<open>Math.random()\<close> returning 0) selects the first entry and then spins for ever.
\<close>

theorem constant_source_never_returns:
  "(2::int) \<le> int (length (results scenarioList)) \<and> validRandom (\<lambda>i len. 0) \<and>
   selectLoop (Typed scenarioList) 2 (\<lambda>i len. 0) 0 {} [] = None"
proof -
  have "selectLoop (Typed scenarioList) 2 (\<lambda>i len. 0) 0 {} [] =
      selectLoop (Typed scenarioList) 2 (\<lambda>i len. 0) (Suc 0) {0} [placeholder pikachu]"
    by (subst selectLoop.simps) (simp add: scenarioList_def)
  also have "\<dots> = None"
    by (rule selectLoop_stuck) simp_all
  finally have "selectLoop (Typed scenarioList) 2 (\<lambda>i len. 0) 0 {} [] = None" .
  moreover have "validRandom (\<lambda>i len. 0)" by (simp add: validRandom_def max_def)
  moreover have "(2::int) \<le> int (length (results scenarioList))" by (simp add: scenarioList_def)
  ultimately show ?thesis by blast
qed

text \<open>
  C9, amended. Let the values of \<open>Math.floor(Math.random() * len)\<close> be indices below
  \<open>len\<close>. For a list response with at least \<open>count\<close> entries and a fair random source
  (after any number of draws every index is drawn again), the selection loop returns, and
  what it returns are the placeholders, with \<open>image = None\<close> and \<open>isLoading = true\<close>,
  carrying the name and the address of the entries at \<open>count\<close> pairwise distinct indices
  (none when \<open>count\<close> is negative). For a non-empty list response with fewer than
  \<open>count\<close> entries the loop never returns: it runs for ever.
\<close>

theorem selection_terminates_distinct:
  assumes "validRandom random"
  shows "(cnt \<le> int (length (results d)) \<and> fairRandom random (length (results d)) \<longrightarrow>
       (\<exists>js. selectLoop (Typed d) cnt random 0 {} [] =
               Some (Inr (map (\<lambda>j. \<lparr>name = name (results d ! j), url = url (results d ! j),
                                       image = None, isLoading = Some True\<rparr>) js)) \<and>
          distinct js \<and> set js \<subseteq> {..<length (results d)} \<and> int (length js) = max 0 cnt)) \<and>
     (0 < length (results d) \<and> int (length (results d)) < cnt \<longrightarrow>
       selectLoop (Typed d) cnt random 0 {} [] = None)"
proof (intro conjI impI)
  assume "cnt \<le> int (length (results d)) \<and> fairRandom random (length (results d))"
  then have le: "cnt \<le> int (length (results d))" and fair: "fairRandom random (length (results d))"
    by simp_all
  from selectLoop_returns[OF assms fair le, of "[]" 0]
  show "\<exists>js. selectLoop (Typed d) cnt random 0 {} [] =
               Some (Inr (map (\<lambda>j. \<lparr>name = name (results d ! j), url = url (results d ! j),
                                       image = None, isLoading = Some True\<rparr>) js)) \<and>
          distinct js \<and> set js \<subseteq> {..<length (results d)} \<and> int (length js) = max 0 cnt"
    by (simp add: selected_def placeholder_def)
next
  assume "0 < length (results d) \<and> int (length (results d)) < cnt"
  with assms show "selectLoop (Typed d) cnt random 0 {} [] = None"
    by (intro selectLoop_spins) simp_all
qed

text \<open>
  Witness for C9: three entries and the source drawing 0, 1, 2 in turn; three items can be
  selected, four cannot.
\<close>

theorem selection_terminates_distinct_witness:
  "validRandom cyclicRandom \<and> fairRandom cyclicRandom (length (results scenarioList)) \<and>
   (\<exists>js. selectLoop (Typed scenarioList) 3 cyclicRandom 0 {} [] =
           Some (Inr (map (\<lambda>j. \<lparr>name = name (results scenarioList ! j),
                                   url = url (results scenarioList ! j),
                                   image = None, isLoading = Some True\<rparr>) js)) \<and>
      distinct js \<and> set js \<subseteq> {..<length (results scenarioList)} \<and> int (length js) = 3) \<and>
   selectLoop (Typed scenarioList) 4 cyclicRandom 0 {} [] = None"
proof -
  have len: "length (results scenarioList) = 3" by (simp add: scenarioList_def)
  note fair = cyclicRandom_fair[of "length (results scenarioList)"]
  note t3 = selection_terminates_distinct[OF cyclicRandom_valid, of 3 scenarioList]
  note t4 = selection_terminates_distinct[OF cyclicRandom_valid, of 4 scenarioList]
  from t3 fair have "\<exists>js. selectLoop (Typed scenarioList) 3 cyclicRandom 0 {} [] =
           Some (Inr (map (\<lambda>j. \<lparr>name = name (results scenarioList ! j),
                                   url = url (results scenarioList ! j),
                                   image = None, isLoading = Some True\<rparr>) js)) \<and>
      distinct js \<and> set js \<subseteq> {..<length (results scenarioList)} \<and> int (length js) = 3"
    by (simp add: len)
  moreover from t4 have "selectLoop (Typed scenarioList) 4 cyclicRandom 0 {} [] = None"
    by (simp add: len)
  ultimately show ?thesis using cyclicRandom_valid fair by blast
qed



end
